theory Spec2Isabelle
  imports Main "HOL-Library.Word"
begin

unbundle bit_operations_syntax

section \<open>Values of the Python program\<close>

text \<open>
  A Python \<^verbatim>\<open>str\<close> is a sequence of code points, lone surrogates included; a
  \<^verbatim>\<open>bytes\<close> object is a sequence of octets. Literals of the source are written as HOL
  string literals and turned into code points by \<open>str\<close> or into octets by \<open>ascii\<close>.
\<close>

type_synonym str = "nat list"
type_synonym bytes = "8 word list"

definition str :: "string \<Rightarrow> str" where
  "str s = map of_char s"

definition ascii :: "string \<Rightarrow> bytes" where
  "ascii s = map of_char s"

text \<open>
  The exceptions the modelled code can raise. \<^verbatim>\<open>binascii.Error\<close>,
  \<^verbatim>\<open>UnicodeEncodeError\<close>, \<^verbatim>\<open>UnicodeDecodeError\<close> and \<^verbatim>\<open>json.JSONDecodeError\<close> are
  subclasses of \<^verbatim>\<open>ValueError\<close> in Python: an \<^verbatim>\<open>except ValueError\<close> clause catches them.
  \<open>ValueError\<close> carries the message the source gives it.
\<close>

datatype exn =
    ValueError str
  | BinasciiError
  | UnicodeEncodeError
  | UnicodeDecodeError
  | JSONDecodeError
  | AttributeError
  | TypeError
  | OverflowError
  | IntegrityError
  | NotModelled

fun is_ValueError :: "exn \<Rightarrow> bool" where
  "is_ValueError (ValueError m) = True"
| "is_ValueError BinasciiError = True"
| "is_ValueError UnicodeEncodeError = True"
| "is_ValueError UnicodeDecodeError = True"
| "is_ValueError JSONDecodeError = True"
| "is_ValueError e = False"

section \<open>Text encodings\<close>

text \<open>\<^verbatim>\<open>s.encode("utf-8")\<close>: a surrogate code point has no encoding and raises.\<close>

definition utf8_char :: "nat \<Rightarrow> bytes" where
  "utf8_char c =
     (if c < 0x80 then [of_nat c]
      else if c < 0x800 then [of_nat (0xC0 + c div 64), of_nat (0x80 + c mod 64)]
      else if c < 0x10000 then
        [of_nat (0xE0 + c div 4096), of_nat (0x80 + c div 64 mod 64), of_nat (0x80 + c mod 64)]
      else [of_nat (0xF0 + c div 262144), of_nat (0x80 + c div 4096 mod 64),
            of_nat (0x80 + c div 64 mod 64), of_nat (0x80 + c mod 64)])"

definition is_surrogate :: "nat \<Rightarrow> bool" where
  "is_surrogate c = (0xD800 \<le> c \<and> c \<le> 0xDFFF)"

definition encode_utf8 :: "str \<Rightarrow> exn + bytes" where
  "encode_utf8 s =
     (if list_ex is_surrogate s then Inl UnicodeEncodeError
      else Inr (concat (map utf8_char s)))"

text \<open>\<^verbatim>\<open>s.encode("ascii")\<close>, as the base64 decoder applies it to a \<^verbatim>\<open>str\<close> argument.\<close>

definition encode_ascii :: "str \<Rightarrow> exn + bytes" where
  "encode_ascii s =
     (if list_all (\<lambda>c. c < 0x80) s then Inr (map of_nat s)
      else Inl (ValueError (str ''string argument should contain only ASCII characters'')))"

text \<open>\<^verbatim>\<open>b.decode("ascii")\<close> on bytes that are known to be ASCII.\<close>

definition decode_ascii :: "bytes \<Rightarrow> str" where
  "decode_ascii b = map unat b"

section \<open>SHA-256, HMAC and PBKDF2 (the \<^verbatim>\<open>hashlib\<close> and \<^verbatim>\<open>hmac\<close> primitives)\<close>

type_synonym w32 = "32 word"

definition rotr :: "nat \<Rightarrow> w32 \<Rightarrow> w32" where
  "rotr n x = (drop_bit n x) OR (push_bit (32 - n) x)"

definition sha_K :: "w32 list" where
  "sha_K = [
    1116352408, 1899447441, 3049323471, 3921009573, 961987163, 1508970993, 2453635748, 2870763221,
    3624381080, 310598401, 607225278, 1426881987, 1925078388, 2162078206, 2614888103, 3248222580,
    3835390401, 4022224774, 264347078, 604807628, 770255983, 1249150122, 1555081692, 1996064986,
    2554220882, 2821834349, 2952996808, 3210313671, 3336571891, 3584528711, 113926993, 338241895,
    666307205, 773529912, 1294757372, 1396182291, 1695183700, 1986661051, 2177026350, 2456956037,
    2730485921, 2820302411, 3259730800, 3345764771, 3516065817, 3600352804, 4094571909, 275423344,
    430227734, 506948616, 659060556, 883997877, 958139571, 1322822218, 1537002063, 1747873779,
    1955562222, 2024104815, 2227730452, 2361852424, 2428436474, 2756734187, 3204031479, 3329325298]"

definition sha_H0 :: "w32 list" where
  "sha_H0 = [1779033703, 3144134277, 1013904242, 2773480762,
             1359893119, 2600822924, 528734635, 1541459225]"

definition be32 :: "bytes \<Rightarrow> w32" where
  "be32 b = foldl (\<lambda>acc x. push_bit 8 acc OR ucast x) 0 b"

definition be_bytes :: "nat \<Rightarrow> nat \<Rightarrow> bytes" where
  "be_bytes k n = map (\<lambda>i. of_nat (n div 256 ^ (k - 1 - i))) [0..<k]"

definition sha_pad :: "bytes \<Rightarrow> bytes" where
  "sha_pad m = m @ [0x80] @ replicate ((119 - length m mod 64) mod 64) 0
                 @ be_bytes 8 (8 * length m)"

fun chunks :: "nat \<Rightarrow> nat \<Rightarrow> 'a list \<Rightarrow> 'a list list" where
  "chunks 0 k xs = []"
| "chunks (Suc n) k xs = take k xs # chunks n k (drop k xs)"

fun schedule :: "nat \<Rightarrow> w32 list \<Rightarrow> w32 list" where
  "schedule 0 w = w"
| "schedule (Suc n) w =
     (let t = length w;
          x15 = w ! (t - 15); x2 = w ! (t - 2);
          s0 = rotr 7 x15 XOR rotr 18 x15 XOR drop_bit 3 x15;
          s1 = rotr 17 x2 XOR rotr 19 x2 XOR drop_bit 10 x2
      in schedule n (w @ [w ! (t - 16) + s0 + w ! (t - 7) + s1]))"

definition sha_round :: "w32 list \<Rightarrow> w32 \<times> w32 \<Rightarrow> w32 list" where
  "sha_round v kw =
     (case v of [a, b, c, d, e, f, g, h] \<Rightarrow>
        (let S1 = rotr 6 e XOR rotr 11 e XOR rotr 25 e;
             ch = (e AND f) XOR (NOT e AND g);
             t1 = h + S1 + ch + fst kw + snd kw;
             S0 = rotr 2 a XOR rotr 13 a XOR rotr 22 a;
             mj = (a AND b) XOR (a AND c) XOR (b AND c);
             t2 = S0 + mj
         in [t1 + t2, a, b, c, d + t1, e, f, g])
      | _ \<Rightarrow> v)"

definition sha_compress :: "w32 list \<Rightarrow> bytes \<Rightarrow> w32 list" where
  "sha_compress hs block =
     (let w = schedule 48 (map be32 (chunks 16 4 block))
      in map2 (+) hs (foldl sha_round hs (zip sha_K w)))"

definition sha256 :: "bytes \<Rightarrow> bytes" where
  "sha256 m =
     (let p = sha_pad m
      in concat (map (\<lambda>w. be_bytes 4 (unat w))
                   (foldl sha_compress sha_H0 (chunks (length p div 64) 64 p))))"

text \<open>\<^verbatim>\<open>hmac.new(key, msg, sha256).digest()\<close> (RFC 2104, block size 64).\<close>

definition hmac_sha256 :: "bytes \<Rightarrow> bytes \<Rightarrow> bytes" where
  "hmac_sha256 key msg =
     (let k0 = (if length key > 64 then sha256 key else key);
          k = k0 @ replicate (64 - length k0) 0
      in sha256 (map (\<lambda>x. x XOR 0x5c) k @ sha256 (map (\<lambda>x. x XOR 0x36) k @ msg)))"

text \<open>
  \<^verbatim>\<open>pbkdf2_hmac("sha256", password, salt, iterations)\<close> with the default derived-key
  length, the digest size: a single block (RFC 8018).
\<close>

fun pbkdf2_loop :: "nat \<Rightarrow> bytes \<Rightarrow> bytes \<Rightarrow> bytes \<Rightarrow> bytes" where
  "pbkdf2_loop 0 password u acc = acc"
| "pbkdf2_loop (Suc n) password u acc =
     (let u' = hmac_sha256 password u in pbkdf2_loop n password u' (map2 (XOR) acc u'))"

definition pbkdf2_hmac_sha256 :: "bytes \<Rightarrow> bytes \<Rightarrow> nat \<Rightarrow> bytes" where
  "pbkdf2_hmac_sha256 password salt iterations =
     (let u1 = hmac_sha256 password (salt @ be_bytes 4 1)
      in pbkdf2_loop (iterations - 1) password u1 u1)"

section \<open>Codec utilities\<close>

text \<open>
  \<^verbatim>\<open>base64.urlsafe_b64encode\<close>: three octets become four characters of the URL-safe
  alphabet, the last group is padded with \<^verbatim>\<open>=\<close>.
\<close>

definition b64chr :: "nat \<Rightarrow> 8 word" where
  "b64chr v =
     (if v < 26 then of_nat (65 + v)
      else if v < 52 then of_nat (71 + v)
      else if v < 62 then of_nat (v - 4)
      else if v = 62 then 0x2D
      else 0x5F)"

fun urlsafe_b64encode :: "bytes \<Rightarrow> bytes" where
  "urlsafe_b64encode [] = []"
| "urlsafe_b64encode [a] =
     [b64chr (unat a div 4), b64chr (unat a mod 4 * 16), 0x3D, 0x3D]"
| "urlsafe_b64encode [a, b] =
     [b64chr (unat a div 4), b64chr (unat a mod 4 * 16 + unat b div 16),
      b64chr (unat b mod 16 * 4), 0x3D]"
| "urlsafe_b64encode (a # b # c # rest) =
     [b64chr (unat a div 4), b64chr (unat a mod 4 * 16 + unat b div 16),
      b64chr (unat b mod 16 * 4 + unat c div 64), b64chr (unat c mod 64)]
     @ urlsafe_b64encode rest"

text \<open>\<^verbatim>\<open>b.rstrip(b"=")\<close>\<close>

definition rstrip_pad :: "bytes \<Rightarrow> bytes" where
  "rstrip_pad b = rev (dropWhile (\<lambda>c. c = 0x3D) (rev b))"

definition b64encode :: "bytes \<Rightarrow> str" where
  "b64encode data = decode_ascii (rstrip_pad (urlsafe_b64encode data))"

text \<open>
  \<^verbatim>\<open>base64.urlsafe_b64decode\<close> on a \<^verbatim>\<open>str\<close>: the argument is encoded as ASCII (a
  \<^verbatim>\<open>ValueError\<close> otherwise), \<^verbatim>\<open>-\<close> and \<^verbatim>\<open>_\<close> are translated to \<^verbatim>\<open>+\<close> and
  \<^verbatim>\<open>/\<close>, and \<^verbatim>\<open>binascii.a2b_base64\<close> decodes in its non-strict mode: characters
  outside the alphabet are skipped, a pad that completes a quad ends the input, and data
  characters left over at the end raise \<^verbatim>\<open>binascii.Error\<close>.
\<close>

definition urlsafe_translate :: "8 word \<Rightarrow> 8 word" where
  "urlsafe_translate c = (if c = 0x2D then 0x2B else if c = 0x5F then 0x2F else c)"

definition table_a2b_base64 :: "8 word \<Rightarrow> nat option" where
  "table_a2b_base64 c =
     (let n = unat c in
      if 65 \<le> n \<and> n \<le> 90 then Some (n - 65)
      else if 97 \<le> n \<and> n \<le> 122 then Some (n - 71)
      else if 48 \<le> n \<and> n \<le> 57 then Some (n + 4)
      else if n = 43 then Some 62
      else if n = 47 then Some 63
      else None)"

definition emit :: "nat \<Rightarrow> exn + bytes \<Rightarrow> exn + bytes" where
  "emit n r = (case r of Inl e \<Rightarrow> Inl e | Inr out \<Rightarrow> Inr (of_nat n # out))"

text \<open>
  The loop of \<^verbatim>\<open>a2b_base64\<close> with its state \<open>quad_pos\<close>, \<open>leftchar\<close> and \<open>pads\<close>.
  The shifts of the C code are written as multiplications and divisions:
  \<open>leftchar\<close> and the six-bit value never overlap in an output octet.
\<close>

fun a2b_loop :: "bytes \<Rightarrow> nat \<Rightarrow> nat \<Rightarrow> nat \<Rightarrow> exn + bytes" where
  "a2b_loop [] quad_pos leftchar pads =
     (if quad_pos \<noteq> 0 then Inl BinasciiError else Inr [])"
| "a2b_loop (c # cs) quad_pos leftchar pads =
     (if c = 0x3D then
        (if quad_pos \<ge> 2 \<and> quad_pos + (pads + 1) \<ge> 4 then Inr []
         else a2b_loop cs quad_pos leftchar (if quad_pos \<ge> 2 then pads + 1 else pads))
      else
        (case table_a2b_base64 c of
           None \<Rightarrow> a2b_loop cs quad_pos leftchar pads
         | Some v \<Rightarrow>
             (if quad_pos = 0 then a2b_loop cs 1 v 0
              else if quad_pos = 1 then
                emit (leftchar * 4 + v div 16) (a2b_loop cs 2 (v mod 16) 0)
              else if quad_pos = 2 then
                emit (leftchar * 16 + v div 4) (a2b_loop cs 3 (v mod 4) 0)
              else emit (leftchar * 64 + v) (a2b_loop cs 0 0 0))))"

definition a2b_base64 :: "bytes \<Rightarrow> exn + bytes" where
  "a2b_base64 b = a2b_loop b 0 0 0"

definition urlsafe_b64decode :: "str \<Rightarrow> exn + bytes" where
  "urlsafe_b64decode s =
     (case encode_ascii s of
        Inl e \<Rightarrow> Inl e
      | Inr b \<Rightarrow> a2b_base64 (map urlsafe_translate b))"

text \<open>\<^verbatim>\<open>"=" * (-len(data) % 4)\<close>: Python's \<open>%\<close> takes the sign of the divisor.\<close>

definition b64decode :: "str \<Rightarrow> exn + bytes" where
  "b64decode data =
     (let padding = replicate (nat ((- int (length data)) mod 4)) (0x3D :: nat)
      in urlsafe_b64decode (data @ padding))"

text \<open>The characters the decoder takes as data: the URL-safe and the standard alphabet.\<close>

definition b64_alphabet :: "nat \<Rightarrow> bool" where
  "b64_alphabet c = (c < 0x80 \<and> table_a2b_base64 (urlsafe_translate (of_nat c)) \<noteq> None)"

text \<open>The encoding without its padding, as a recursion of its own (used in the proofs).\<close>

fun b64body :: "bytes \<Rightarrow> bytes" where
  "b64body [] = []"
| "b64body [a] = [b64chr (unat a div 4), b64chr (unat a mod 4 * 16)]"
| "b64body [a, b] =
     [b64chr (unat a div 4), b64chr (unat a mod 4 * 16 + unat b div 16),
      b64chr (unat b mod 16 * 4)]"
| "b64body (a # b # c # rest) =
     [b64chr (unat a div 4), b64chr (unat a mod 4 * 16 + unat b div 16),
      b64chr (unat b mod 16 * 4 + unat c div 64), b64chr (unat c mod 64)]
     @ b64body rest"

section \<open>Strings\<close>

text \<open>\<^verbatim>\<open>s.split(sep)\<close> for a separator of one character: every occurrence splits.\<close>

fun split_on :: "nat \<Rightarrow> str \<Rightarrow> str list" where
  "split_on sep [] = [[]]"
| "split_on sep (c # cs) =
     (if c = sep then [] # split_on sep cs
      else (case split_on sep cs of [] \<Rightarrow> [[c]] | p # ps \<Rightarrow> (c # p) # ps))"

section \<open>JSON (the \<^verbatim>\<open>json\<close> module)\<close>

text \<open>
  JSON values as Python objects. A \<^verbatim>\<open>dict\<close> is an association list in insertion order
  with unique keys; assigning to a key that is present replaces its value in place.
  Floats and arrays are outside the model: where the library would produce one, or would
  need string escapes, a nested container or a text encoding other than ASCII, the model
  answers \<open>NotModelled\<close> and no theorem concludes anything from that answer.
\<close>

datatype json = JNull | JBool bool | JInt int | JStr str | JObject "(str \<times> json) list"

type_synonym dict = "(str \<times> json) list"

fun dict_set :: "dict \<Rightarrow> str \<Rightarrow> json \<Rightarrow> dict" where
  "dict_set [] k v = [(k, v)]"
| "dict_set ((k', v') # d) k v =
     (if k' = k then (k', v) # d else (k', v') # dict_set d k v)"

definition dict_get :: "dict \<Rightarrow> str \<Rightarrow> json \<Rightarrow> json" where
  "dict_get d k dflt = (case map_of d k of None \<Rightarrow> dflt | Some v \<Rightarrow> v)"

text \<open>Decimal digits of a natural number, and \<^verbatim>\<open>str(n)\<close> for an integer.\<close>

function digits :: "nat \<Rightarrow> str" where
  "digits n = (if n < 10 then [48 + n] else digits (n div 10) @ [48 + n mod 10])"
  by pat_completeness auto
termination
  by (relation "measure id") auto

definition str_of_int :: "int \<Rightarrow> str" where
  "str_of_int i = (if i < 0 then 45 # digits (nat (- i)) else digits (nat i))"

text \<open>
  \<^verbatim>\<open>json.dumps(obj, separators=(",", ":"))\<close> on scalars and on dicts of scalars. A
  string is written between quotes as it is when it needs no escape (printable ASCII
  without quote and backslash).
\<close>

definition plain_char :: "nat \<Rightarrow> bool" where
  "plain_char c = (0x20 \<le> c \<and> c < 0x7F \<and> c \<noteq> 0x22 \<and> c \<noteq> 0x5C)"

fun dumps_scalar :: "json \<Rightarrow> exn + str" where
  "dumps_scalar JNull = Inr (str ''null'')"
| "dumps_scalar (JBool b) = Inr (if b then str ''true'' else str ''false'')"
| "dumps_scalar (JInt i) = Inr (str_of_int i)"
| "dumps_scalar (JStr s) =
     (if list_all plain_char s then Inr ([0x22] @ s @ [0x22]) else Inl NotModelled)"
| "dumps_scalar (JObject d) = Inl NotModelled"

fun dumps_items :: "dict \<Rightarrow> exn + str" where
  "dumps_items [] = Inr []"
| "dumps_items ((k, v) # d) =
     (case dumps_scalar (JStr k) of Inl e \<Rightarrow> Inl e | Inr ks \<Rightarrow>
      case dumps_scalar v of Inl e \<Rightarrow> Inl e | Inr vs \<Rightarrow>
      case dumps_items d of Inl e \<Rightarrow> Inl e | Inr rest \<Rightarrow>
        Inr (ks @ [0x3A] @ vs @ (if d = [] then [] else [0x2C]) @ rest))"

fun json_dumps :: "json \<Rightarrow> exn + str" where
  "json_dumps (JObject d) =
     (case dumps_items d of Inl e \<Rightarrow> Inl e | Inr body \<Rightarrow> Inr ([0x7B] @ body @ [0x7D]))"
| "json_dumps v = dumps_scalar v"

text \<open>
  \<^verbatim>\<open>json.loads\<close>. The scanner skips the four JSON whitespace characters, reads a
  string up to its closing quote, a number by the library's number pattern, the three
  literals, and an object as members separated by commas.
\<close>

definition is_ws :: "nat \<Rightarrow> bool" where
  "is_ws c = (c = 0x20 \<or> c = 0x09 \<or> c = 0x0A \<or> c = 0x0D)"

definition skip_ws :: "str \<Rightarrow> str" where
  "skip_ws s = dropWhile is_ws s"

definition is_digit :: "nat \<Rightarrow> bool" where
  "is_digit c = (48 \<le> c \<and> c \<le> 57)"

text \<open>The text after an opening quote: the string and what follows its closing quote.\<close>

fun scanstring :: "str \<Rightarrow> exn + (str \<times> str)" where
  "scanstring [] = Inl JSONDecodeError"
| "scanstring (c # cs) =
     (if c = 0x22 then Inr ([], cs)
      else if c = 0x5C then Inl NotModelled
      else if c < 0x20 then Inl JSONDecodeError
      else (case scanstring cs of Inl e \<Rightarrow> Inl e | Inr (s, rest) \<Rightarrow> Inr (c # s, rest)))"

definition int_of_digits :: "str \<Rightarrow> int" where
  "int_of_digits ds = foldl (\<lambda>acc d. 10 * acc + (int d - 48)) 0 ds"

text \<open>
  A number: an optional minus sign, then \<^verbatim>\<open>0\<close> or a digit string that does not start
  with \<^verbatim>\<open>0\<close>. A fraction or an exponent after it makes the number a float.
\<close>

definition float_follows :: "str \<Rightarrow> bool" where
  "float_follows s =
     (case s of
        c # d # rest \<Rightarrow>
          (c = 0x2E \<and> is_digit d) \<or>
          ((c = 0x65 \<or> c = 0x45) \<and>
             (is_digit d \<or> ((d = 0x2B \<or> d = 0x2D) \<and> (case rest of [] \<Rightarrow> False | f # _ \<Rightarrow> is_digit f))))
      | _ \<Rightarrow> False)"

definition match_number :: "str \<Rightarrow> exn + (json \<times> str)" where
  "match_number s =
     (let neg = (case s of [] \<Rightarrow> False | c # _ \<Rightarrow> c = 0x2D);
          t = (if neg then tl s else s);
          ds = (case t of [] \<Rightarrow> []
                | c # cs \<Rightarrow> if c = 48 then [c]
                             else if is_digit c then takeWhile is_digit t else []);
          rest = drop (length ds) t
      in if ds = [] then Inl JSONDecodeError
         else if float_follows rest then Inl NotModelled
         else Inr (JInt (if neg then - int_of_digits ds else int_of_digits ds), rest))"

definition starts_with :: "str \<Rightarrow> str \<Rightarrow> bool" where
  "starts_with s p = (take (length p) s = p)"

text \<open>A value that is not a container, at the start of the text.\<close>

definition scan_scalar :: "str \<Rightarrow> exn + (json \<times> str)" where
  "scan_scalar s =
     (case s of
        [] \<Rightarrow> Inl JSONDecodeError
      | c # cs \<Rightarrow>
          if c = 0x22 then
            (case scanstring cs of Inl e \<Rightarrow> Inl e | Inr (v, rest) \<Rightarrow> Inr (JStr v, rest))
          else if c = 0x7B \<or> c = 0x5B then Inl NotModelled
          else if starts_with s (str ''null'') then Inr (JNull, drop 4 s)
          else if starts_with s (str ''true'') then Inr (JBool True, drop 4 s)
          else if starts_with s (str ''false'') then Inr (JBool False, drop 5 s)
          else if starts_with s (str ''NaN'') \<or> starts_with s (str ''Infinity'')
                  \<or> starts_with s (str ''-Infinity'') then Inl NotModelled
          else match_number s)"

text \<open>
  The members of an object, from the opening quote of a key on. \<open>fuel\<close> bounds the number
  of members by the length of the text, which every member shortens.
\<close>

fun scan_members :: "nat \<Rightarrow> dict \<Rightarrow> str \<Rightarrow> exn + (json \<times> str)" where
  "scan_members 0 d s = Inl NotModelled"
| "scan_members (Suc fuel) d s =
     (case s of
        [] \<Rightarrow> Inl JSONDecodeError
      | q # s1 \<Rightarrow>
          if q \<noteq> 0x22 then Inl JSONDecodeError
          else (case scanstring s1 of Inl e \<Rightarrow> Inl e | Inr (key, s2) \<Rightarrow>
            (case skip_ws s2 of
               [] \<Rightarrow> Inl JSONDecodeError
             | colon # s3 \<Rightarrow>
                 if colon \<noteq> 0x3A then Inl JSONDecodeError
                 else (case scan_scalar (skip_ws s3) of Inl e \<Rightarrow> Inl e | Inr (v, s4) \<Rightarrow>
                   (let d' = dict_set d key v in
                    case skip_ws s4 of
                      [] \<Rightarrow> Inl JSONDecodeError
                    | sep # s5 \<Rightarrow>
                        if sep = 0x7D then Inr (JObject d', s5)
                        else if sep = 0x2C then scan_members fuel d' (skip_ws s5)
                        else Inl JSONDecodeError)))))"

definition scan_object :: "str \<Rightarrow> exn + (json \<times> str)" where
  "scan_object s =
     (case skip_ws s of
        [] \<Rightarrow> Inl JSONDecodeError
      | c # cs \<Rightarrow> if c = 0x7D then Inr (JObject [], cs)
                  else scan_members (length s) [] (skip_ws s))"

definition scan_once :: "str \<Rightarrow> exn + (json \<times> str)" where
  "scan_once s =
     (case s of
        [] \<Rightarrow> Inl JSONDecodeError
      | c # cs \<Rightarrow> if c = 0x7B then scan_object cs else scan_scalar s)"

text \<open>
  \<^verbatim>\<open>json.loads\<close> on \<^verbatim>\<open>bytes\<close>: the text encoding is detected first; octets that
  are all ASCII and not zero are UTF-8 text of the same characters.
\<close>

definition json_loads :: "bytes \<Rightarrow> exn + json" where
  "json_loads b =
     (if list_ex (\<lambda>x. x = 0 \<or> x \<ge> 0x80) b then Inl NotModelled
      else (case scan_once (skip_ws (decode_ascii b)) of
              Inl e \<Rightarrow> Inl e
            | Inr (v, rest) \<Rightarrow> if skip_ws rest = [] then Inr v else Inl JSONDecodeError))"

section \<open>Configuration\<close>

text \<open>The fields of \<^verbatim>\<open>AppConfig\<close> that the authentication code reads.\<close>

record AppConfig =
  jwt_secret :: str
  token_exp_seconds :: int

section \<open>Token engine\<close>

text \<open>
  \<^verbatim>\<open>int(v)\<close> on a value of the payload. A string may or may not be an integer
  literal, which the model does not decide.
\<close>

fun py_int :: "json \<Rightarrow> exn + int" where
  "py_int (JInt i) = Inr i"
| "py_int (JBool b) = Inr (if b then 1 else 0)"
| "py_int (JStr s) = Inl NotModelled"
| "py_int JNull = Inl TypeError"
| "py_int (JObject d) = Inl TypeError"

text \<open>One segment: \<^verbatim>\<open>_b64encode(json.dumps(part, separators=(",", ":")).encode("utf-8"))\<close>\<close>

definition segment :: "json \<Rightarrow> exn + str" where
  "segment part =
     (case json_dumps part of Inl e \<Rightarrow> Inl e | Inr text \<Rightarrow>
      case encode_utf8 text of Inl e \<Rightarrow> Inl e | Inr b \<Rightarrow> Inr (b64encode b))"

text \<open>
  \<open>generate_token\<close>; \<open>now\<close> is the value of \<^verbatim>\<open>int(time.time())\<close> at the call.
\<close>

definition generate_token :: "int \<Rightarrow> int \<Rightarrow> AppConfig \<Rightarrow> exn + str" where
  "generate_token user_id now config =
     (let header = JObject [(str ''alg'', JStr (str ''HS256'')), (str ''typ'', JStr (str ''JWT''))];
          payload = JObject [(str ''sub'', JInt user_id), (str ''iat'', JInt now),
                             (str ''exp'', JInt (now + token_exp_seconds config))]
      in case segment header of Inl e \<Rightarrow> Inl e | Inr h \<Rightarrow>
         case segment payload of Inl e \<Rightarrow> Inl e | Inr p \<Rightarrow>
         (let signing_input = h @ [0x2E] @ p
          in case encode_utf8 (jwt_secret config) of Inl e \<Rightarrow> Inl e | Inr key \<Rightarrow>
             case encode_utf8 signing_input of Inl e \<Rightarrow> Inl e | Inr msg \<Rightarrow>
               Inr (signing_input @ [0x2E] @ b64encode (hmac_sha256 key msg))))"

text \<open>
  \<open>decode_token\<close>; \<open>now\<close> is the value of \<^verbatim>\<open>int(time.time())\<close> at the expiry check.
  \<^verbatim>\<open>hmac.compare_digest\<close> is equality of the two byte strings.
\<close>

definition decode_token :: "str \<Rightarrow> int \<Rightarrow> AppConfig \<Rightarrow> exn + json" where
  "decode_token token now config =
     (case split_on 0x2E token of
        [header_b64, payload_b64, signature_b64] \<Rightarrow>
          (let signing_input = header_b64 @ [0x2E] @ payload_b64
           in case encode_utf8 (jwt_secret config) of Inl e \<Rightarrow> Inl e | Inr key \<Rightarrow>
              case encode_utf8 signing_input of Inl e \<Rightarrow> Inl e | Inr msg \<Rightarrow>
              (let expected_sig = hmac_sha256 key msg
               in case b64decode signature_b64 of Inl e \<Rightarrow> Inl e | Inr sig \<Rightarrow>
                  if expected_sig \<noteq> sig then Inl (ValueError (str ''Invalid signature''))
                  else case b64decode payload_b64 of Inl e \<Rightarrow> Inl e | Inr pb \<Rightarrow>
                       case json_loads pb of Inl e \<Rightarrow> Inl e | Inr payload \<Rightarrow>
                       (case payload of
                          JObject d \<Rightarrow>
                            (case py_int (dict_get d (str ''exp'') (JInt 0)) of
                               Inl e \<Rightarrow> Inl e
                             | Inr exp \<Rightarrow>
                                 if now \<ge> exp then Inl (ValueError (str ''Token expired''))
                                 else Inr payload)
                        | _ \<Rightarrow> Inl AttributeError)))
      | _ \<Rightarrow> Inl (ValueError (str ''Malformed token'')))"

section \<open>Properties of the codec\<close>

lemma unat_of_nat8: "n < 256 \<Longrightarrow> unat (of_nat n :: 8 word) = n"
  by (simp add: unat_of_nat)

lemma unat_b64chr: "v < 64 \<Longrightarrow> unat (b64chr v) =
  (if v < 26 then 65 + v else if v < 52 then 71 + v else if v < 62 then v - 4
   else if v = 62 then 45 else 95)"
  unfolding b64chr_def by (simp add: unat_of_nat8 del: of_nat_add of_nat_diff of_nat_numeral)

lemma eq_iff_unat8: "(c = (d :: 8 word)) = (unat c = unat d)"
  by (simp add: word_unat_eq_iff)

lemma b64chr_not_pad: "v < 64 \<Longrightarrow> b64chr v \<noteq> 0x3D"
  by (auto simp add: eq_iff_unat8 unat_b64chr)

lemma b64chr_ascii: "v < 64 \<Longrightarrow> unat (b64chr v) < 128"
  by (auto simp add: unat_b64chr)

lemma unat_translate: "unat (urlsafe_translate c) =
   (if unat c = 45 then 43 else if unat c = 95 then 47 else unat c)"
  unfolding urlsafe_translate_def by (simp add: eq_iff_unat8)

lemma b64chr_val: "v < 64 \<Longrightarrow> table_a2b_base64 (urlsafe_translate (b64chr v)) = Some v"
  unfolding table_a2b_base64_def Let_def unat_translate
  by (auto simp add: unat_b64chr)

lemma translate_not_pad: "v < 64 \<Longrightarrow> urlsafe_translate (b64chr v) \<noteq> 0x3D"
  by (auto simp add: eq_iff_unat8 unat_translate unat_b64chr)


lemma unat_lt_256: "unat (a :: 8 word) < 256"
  using unsigned_less [of a] by simp

lemma sextet_bounds:
  "unat (a :: 8 word) div 4 < 64"
  "unat a mod 4 * 16 < 64"
  "unat a mod 4 * 16 + unat (b :: 8 word) div 16 < 64"
  "unat b mod 16 * 4 < 64"
  "unat b mod 16 * 4 + unat (c :: 8 word) div 64 < 64"
  "unat c mod 64 < 64"
  using unat_lt_256 [of a] unat_lt_256 [of b] unat_lt_256 [of c] by simp_all

lemma rstrip_pad_Nil: "rstrip_pad [] = []"
  by (simp add: rstrip_pad_def)

lemma rstrip_pad_Cons:
  "rstrip_pad (c # cs) = (if rstrip_pad cs = [] \<and> c = 0x3D then [] else c # rstrip_pad cs)"
  by (auto simp: rstrip_pad_def dropWhile_append)

lemma strip_enc: "rstrip_pad (urlsafe_b64encode d) = b64body d"
  by (induction d rule: urlsafe_b64encode.induct)
     (simp_all add: rstrip_pad_Nil rstrip_pad_Cons b64chr_not_pad sextet_bounds)

lemma pad_body:
  "b64body d @ replicate (nat ((- int (length (b64body d))) mod 4)) 0x3D = urlsafe_b64encode d"
proof (induction d rule: b64body.induct)
  case (4 a b c rest)
  have "(- int (length (b64body (a # b # c # rest)))) mod 4 = (- int (length (b64body rest))) mod 4"
    by simp presburger
  with 4 show ?case by simp
qed (simp_all add: numeral_2_eq_2)

lemma enc_ascii: "list_all (\<lambda>c. unat c < 128) (urlsafe_b64encode d)"
  by (induction d rule: urlsafe_b64encode.induct) (simp_all add: b64chr_ascii sextet_bounds)

lemma octets:
  fixes a b c :: "8 word"
  shows "of_nat (unat a div 4 * 4 + (unat a mod 4 * 16 + unat b div 16) div 16) = a"
    and "of_nat (unat a div 4 * 4 + unat a mod 4 * 16 div 16) = a"
    and "of_nat ((unat a mod 4 * 16 + unat b div 16) mod 16 * 16
                 + (unat b mod 16 * 4 + unat c div 64) div 4) = b"
    and "of_nat ((unat a mod 4 * 16 + unat b div 16) mod 16 * 16 + unat b mod 16 * 4 div 4) = b"
    and "of_nat ((unat b mod 16 * 4 + unat c div 64) mod 4 * 64 + unat c mod 64) = c"
proof -
  have qb: "unat b div 16 < 16" and rc: "unat c div 64 < 4"
    using unat_lt_256 [of b] unat_lt_256 [of c] by simp_all
  have e1: "unat a div 4 * 4 + (unat a mod 4 * 16 + unat b div 16) div 16 = unat a"
    using qb by simp
  have e2: "unat a div 4 * 4 + unat a mod 4 * 16 div 16 = unat a"
    by simp
  have e3: "(unat a mod 4 * 16 + unat b div 16) mod 16 * 16
          + (unat b mod 16 * 4 + unat c div 64) div 4 = unat b"
    using qb rc by simp
  have e4: "(unat a mod 4 * 16 + unat b div 16) mod 16 * 16 + unat b mod 16 * 4 div 4 = unat b"
    using qb by simp
  have e5: "(unat b mod 16 * 4 + unat c div 64) mod 4 * 64 + unat c mod 64 = unat c"
    using rc by simp
  show "of_nat (unat a div 4 * 4 + (unat a mod 4 * 16 + unat b div 16) div 16) = a"
    unfolding e1 by simp
  show "of_nat (unat a div 4 * 4 + unat a mod 4 * 16 div 16) = a"
    unfolding e2 by simp
  show "of_nat ((unat a mod 4 * 16 + unat b div 16) mod 16 * 16
                 + (unat b mod 16 * 4 + unat c div 64) div 4) = b"
    unfolding e3 by simp
  show "of_nat ((unat a mod 4 * 16 + unat b div 16) mod 16 * 16 + unat b mod 16 * 4 div 4) = b"
    unfolding e4 by simp
  show "of_nat ((unat b mod 16 * 4 + unat c div 64) mod 4 * 64 + unat c mod 64) = c"
    unfolding e5 by simp
qed

lemma translate_pad: "urlsafe_translate 0x3D = 0x3D"
  by (simp add: urlsafe_translate_def)



lemma a2b_data:
  "v < 64 \<Longrightarrow> a2b_loop (urlsafe_translate (b64chr v) # cs) q l p =
     (if q = 0 then a2b_loop cs 1 v 0
      else if q = 1 then emit (l * 4 + v div 16) (a2b_loop cs 2 (v mod 16) 0)
      else if q = 2 then emit (l * 16 + v div 4) (a2b_loop cs 3 (v mod 4) 0)
      else emit (l * 64 + v) (a2b_loop cs 0 0 0))"
  by (simp add: b64chr_val translate_not_pad)

lemma a2b_steps:
  assumes "v < 64"
  shows "a2b_loop (urlsafe_translate (b64chr v) # cs) 0 l p = a2b_loop cs 1 v 0"
    and "a2b_loop (urlsafe_translate (b64chr v) # cs) 1 l p =
           emit (l * 4 + v div 16) (a2b_loop cs 2 (v mod 16) 0)"
    and "a2b_loop (urlsafe_translate (b64chr v) # cs) 2 l p =
           emit (l * 16 + v div 4) (a2b_loop cs 3 (v mod 4) 0)"
    and "a2b_loop (urlsafe_translate (b64chr v) # cs) 3 l p =
           emit (l * 64 + v) (a2b_loop cs 0 0 0)"
  using assms a2b_data [of v cs 0 l p] a2b_data [of v cs 1 l p]
    a2b_data [of v cs 2 l p] a2b_data [of v cs 3 l p]
  by simp_all

lemma a2b_pad2: "a2b_loop [0x3D, 0x3D] 2 l 0 = Inr []"
  by simp

lemma a2b_pad1: "a2b_loop [0x3D] 3 l 0 = Inr []"
  by simp

lemma emit_Inr: "emit n (Inr out) = Inr (of_nat n # out)"
  by (simp add: emit_def)


lemma a2b_enc: "a2b_loop (map urlsafe_translate (urlsafe_b64encode d)) 0 0 0 = Inr d"
proof (induction d rule: urlsafe_b64encode.induct)
  case 1
  show ?case by simp
next
  case (2 a)
  show ?case
    by (simp only: urlsafe_b64encode.simps list.map translate_pad a2b_steps sextet_bounds
          a2b_pad2 emit_Inr octets)
next
  case (3 a b)
  show ?case
    by (simp only: urlsafe_b64encode.simps list.map translate_pad a2b_steps sextet_bounds
          a2b_pad1 emit_Inr octets)
next
  case (4 a b c rest)
  then show ?case
    by (simp only: urlsafe_b64encode.simps list.map map_append append.simps a2b_steps
          sextet_bounds emit_Inr octets)
qed


lemma encode_decode_ascii:
  "list_all (\<lambda>c. unat c < 128) b \<Longrightarrow> encode_ascii (decode_ascii b) = Inr b"
  by (auto simp: encode_ascii_def decode_ascii_def list_all_iff comp_def)

lemma b64_pad_string:
  "b64encode d @ replicate (nat ((- int (length (b64encode d))) mod 4)) 0x3D
     = decode_ascii (urlsafe_b64encode d)"
proof -
  have "decode_ascii (urlsafe_b64encode d)
          = decode_ascii (b64body d @ replicate (nat ((- int (length (b64body d))) mod 4)) 0x3D)"
    by (simp only: pad_body)
  then show ?thesis
    by (simp add: b64encode_def strip_enc decode_ascii_def)
qed

theorem b64_roundtrip: "b64decode (b64encode b) = Inr b"
  unfolding b64decode_def Let_def b64_pad_string urlsafe_b64decode_def
  by (simp add: encode_decode_ascii enc_ascii a2b_base64_def a2b_enc)

lemma a2b_pads_q1: "a2b_loop (replicate k 0x3D) (Suc 0) l p = Inl BinasciiError"
  by (induction k arbitrary: p) simp_all

lemma emit_Inl: "emit n (Inl e) = Inl e"
  by (simp add: emit_def)

lemma a2b_one_over:
  "list_all (\<lambda>c. c \<noteq> 0x3D \<and> table_a2b_base64 c \<noteq> None) cs \<Longrightarrow> q < 4 \<Longrightarrow>
   (q + length cs) mod 4 = 1 \<Longrightarrow>
   a2b_loop (cs @ replicate k 0x3D) q l p = Inl BinasciiError"
proof (induction cs arbitrary: q l p)
  case Nil
  then show ?case by (simp add: a2b_pads_q1)
next
  case (Cons c cs)
  from Cons.prems obtain v where v: "table_a2b_base64 c = Some v" and c: "c \<noteq> 0x3D"
    and rest: "list_all (\<lambda>c. c \<noteq> 0x3D \<and> table_a2b_base64 c \<noteq> None) cs"
    by auto
  from Cons.prems have "q = 0 \<or> q = 1 \<or> q = 2 \<or> q = 3" by arith
  then show ?case
  proof (elim disjE)
    assume "q = 0"
    with Cons.prems have "(1 + length cs) mod 4 = 1" by simp
    with Cons.IH [OF rest, of 1 v 0] \<open>q = 0\<close> v c show ?thesis by simp
  next
    assume "q = 1"
    with Cons.prems have "(2 + length cs) mod 4 = 1" by simp
    with Cons.IH [OF rest, of 2 "v mod 16" 0] \<open>q = 1\<close> v c show ?thesis by (simp add: emit_Inl)
  next
    assume "q = 2"
    with Cons.prems have "(3 + length cs) mod 4 = 1" by simp
    with Cons.IH [OF rest, of 3 "v mod 4" 0] \<open>q = 2\<close> v c show ?thesis by (simp add: emit_Inl)
  next
    assume "q = 3"
    with Cons.prems have "(0 + length cs) mod 4 = 1" by (simp add: mod_Suc) 
    with Cons.IH [OF rest, of 0 0 0] \<open>q = 3\<close> v c show ?thesis by (simp add: emit_Inl)
  qed
qed


lemma table_pad: "table_a2b_base64 0x3D = None"
  by (simp add: table_a2b_base64_def)

lemma length_b64body: "length (b64body d) mod 4 \<noteq> 1"
  by (induction d rule: b64body.induct) simp_all

lemma encode_ascii_append_pad:
  "list_all (\<lambda>c. c < 0x80) s \<Longrightarrow>
   encode_ascii (s @ replicate k 0x3D) = Inr (map of_nat s @ replicate k 0x3D)"
  by (auto simp: encode_ascii_def list_all_iff)

lemma b64decode_one_over:
  assumes "list_all b64_alphabet s" and "length s mod 4 = 1"
  shows "b64decode s = Inl BinasciiError"
proof -
  let ?k = "nat ((- int (length s)) mod 4)"
  have asc: "list_all (\<lambda>c. c < 0x80) s"
    using assms(1) by (simp add: list_all_iff b64_alphabet_def)
  have ok: "list_all (\<lambda>c. c \<noteq> 0x3D \<and> table_a2b_base64 c \<noteq> None)
              (map urlsafe_translate (map of_nat s))"
    using assms(1) table_pad by (auto simp: list_all_iff b64_alphabet_def)
  have "a2b_loop (map urlsafe_translate (map of_nat s) @ replicate ?k 0x3D) 0 0 0
          = Inl BinasciiError"
    by (rule a2b_one_over [OF ok]) (simp_all add: assms(2))
  then show ?thesis
    by (simp add: b64decode_def urlsafe_b64decode_def encode_ascii_append_pad [OF asc]
          a2b_base64_def translate_pad)
qed

text \<open>
  Claim C8, as amended. Decoding the encoding of any byte sequence returns the sequence,
  whatever its length; the encoder never produces a string whose length is one more than a
  multiple of four; and a decoder input of that length that consists of alphabet characters
  only raises \<^verbatim>\<open>binascii.Error\<close>, a \<^verbatim>\<open>ValueError\<close>.
\<close>

theorem b64_roundtrip_and_format_error:
  "b64decode (b64encode b) = Inr b \<and> length (b64encode b) mod 4 \<noteq> 1 \<and>
   (list_all b64_alphabet s \<and> length s mod 4 = 1 \<longrightarrow> b64decode s = Inl BinasciiError)"
proof (intro conjI impI)
  show "b64decode (b64encode b) = Inr b" by (rule b64_roundtrip)
  show "length (b64encode b) mod 4 \<noteq> 1"
    using length_b64body [of b] by (simp add: b64encode_def strip_enc decode_ascii_def)
  show "b64decode s = Inl BinasciiError" if "list_all b64_alphabet s \<and> length s mod 4 = 1"
    using that by (simp add: b64decode_one_over)
qed

theorem b64_roundtrip_and_format_error_witness:
  "list_all b64_alphabet (str ''A'') \<and> length (str ''A'') mod 4 = 1 \<and>
   b64decode (str ''A'') = Inl BinasciiError"
  using b64_roundtrip_and_format_error [of "[]" "str ''A''"]
  by (simp add: str_def b64_alphabet_def urlsafe_translate_def table_a2b_base64_def)

text \<open>
  Claim C8 as stated fails: the decoder skips characters outside the alphabet, so the
  five-character input \<^verbatim>\<open>AAAA!\<close> decodes to three zero octets.
\<close>

theorem b64decode_length_one_over_counterexample:
  "length (str ''AAAA!'') mod 4 = 1 \<and> b64decode (str ''AAAA!'') = Inr [0, 0, 0]"
  by code_simp

section \<open>Properties of the token engine\<close>

lemma encode_utf8_ascii:
  "list_all (\<lambda>c. c < 0x80) s \<Longrightarrow> encode_utf8 s = Inr (map of_nat s)"
proof -
  assume a: "list_all (\<lambda>c. c < 0x80) s"
  then have "\<not> list_ex is_surrogate s"
    by (auto simp: list_all_iff list_ex_iff is_surrogate_def)
  moreover from a have "concat (map utf8_char s) = map of_nat s"
    by (induction s) (simp_all add: utf8_char_def)
  ultimately show ?thesis by (simp add: encode_utf8_def)
qed

lemma b64body_chars: "c \<in> set (b64body d) \<Longrightarrow> \<exists>v < 64. c = b64chr v"
  by (induction d rule: b64body.induct) (auto intro: sextet_bounds)

lemma b64encode_body: "b64encode d = map unat (b64body d)"
  by (simp add: b64encode_def strip_enc decode_ascii_def)

lemma b64encode_chars:
  assumes "c \<in> set (b64encode d)"
  shows "c < 0x80" and "c \<noteq> 0x2E" and "c \<noteq> 0x24" and "b64_alphabet c"
proof -
  from assms obtain v where v: "v < 64" and c: "c = unat (b64chr v)"
    using b64body_chars by (auto simp: b64encode_body)
  show "c < 0x80" and "c \<noteq> 0x2E" and "c \<noteq> 0x24"
    using v by (auto simp: c unat_b64chr)
  show "b64_alphabet c"
    using v b64chr_ascii [OF v] by (simp add: b64_alphabet_def c b64chr_val)
qed

lemma split_on_nonempty: "split_on sep s \<noteq> []"
  by (induction s) (auto split: list.splits)

lemma split_on_no_sep: "sep \<notin> set a \<Longrightarrow> split_on sep a = [a]"
  by (induction a) auto

lemma split_on_append:
  "sep \<notin> set a \<Longrightarrow> split_on sep (a @ sep # rest) = a # split_on sep rest"
  by (induction a) auto


end
